theory Spec2Isabelle
  imports Main "HOL-Library.AList"
begin

text \<open>
  A shallow embedding of \<^verbatim>\<open>library/manageiq_provider.py\<close>: the diff of
  \<^verbatim>\<open>required_updates\<close>, the validation poller
  \<^verbatim>\<open>verify_authenticaion_validation\<close>, and the two operations
  \<^verbatim>\<open>add_or_update_provider\<close> and \<^verbatim>\<open>delete_provider\<close> of the class
  \<^verbatim>\<open>ManageIQ\<close>. A method takes the object state and returns its result together
  with the new state; a result is \<open>Inr\<close> of a value, or \<open>Inl\<close> of the way the run
  ended (\<^verbatim>\<open>fail_json\<close>, or an exception that nothing catches). The line numbers are
  those of the source file.
\<close>

section \<open>Values, dictionaries and exceptions\<close>

text \<open>
  The scalar values that occur in the fields the module reads and compares: host names,
  ports, ids, zone ids, regions, roles, authentication types, statuses and timestamps.
  They are Python's \<^verbatim>\<open>None\<close>, integers and strings; on these three shapes Python's
  \<^verbatim>\<open>==\<close> is structural equality.
\<close>

datatype pyval = PNone | PInt int | PStr string

text \<open>Python truthiness, as used by \<^verbatim>\<open>if provider_id:\<close> and \<^verbatim>\<open>x or None\<close>.\<close>

fun truthy :: "pyval \<Rightarrow> bool" where
  "truthy PNone = False"
| "truthy (PInt i) = (i \<noteq> 0)"
| "truthy (PStr s) = (s \<noteq> [])"

text \<open>
  A dictionary is an association list; a key is looked up with \<open>map_of\<close> and stored
  with \<open>AList.update\<close>, which replaces the value of a key already present and appends
  a new key otherwise. A JSON object with scalar fields is a dictionary from field names
  to values.
\<close>

type_synonym ('k, 'v) dict = "('k \<times> 'v) list"

type_synonym jobject = "(string, pyval) dict"

text \<open>The set of keys of a dictionary.\<close>

definition keys :: "('k, 'v) dict \<Rightarrow> 'k set" where
  "keys d = fst ` set d"

datatype exn = ApiError string | KeyError pyval | IndexError | UnboundLocalError

text \<open>
  \<^verbatim>\<open>module.fail_json(msg=...)\<close> ends the run with a message built from a format string
  and the exception caught; an exception that no handler catches ends it too.
\<close>

datatype abort = FailJson string exn | Uncaught exn

text \<open>\<^verbatim>\<open>d[k]\<close> on a JSON object and \<^verbatim>\<open>d.get(k, default)\<close>.\<close>

definition item :: "jobject \<Rightarrow> string \<Rightarrow> exn + pyval" where
  "item d k = (case map_of d k of None \<Rightarrow> Inl (KeyError (PStr k)) | Some v \<Rightarrow> Inr v)"

definition get_or :: "('k, 'v) dict \<Rightarrow> 'k \<Rightarrow> 'v \<Rightarrow> 'v" where
  "get_or d k dflt = (case map_of d k of None \<Rightarrow> dflt | Some v \<Rightarrow> v)"

text \<open>
  A dictionary comprehension \<^verbatim>\<open>{key(e): val(e) for e in xs}\<close> whose key expression may
  raise: entries are stored from left to right, a later entry replacing an earlier one
  with the same key.
\<close>

fun comprehension :: "('a \<Rightarrow> exn + 'k \<times> 'v) \<Rightarrow> 'a list \<Rightarrow> ('k, 'v) dict \<Rightarrow> exn + ('k, 'v) dict" where
  "comprehension f [] d = Inr d"
| "comprehension f (x # xs) d =
     (case f x of Inl e \<Rightarrow> Inl e | Inr (k, v) \<Rightarrow> comprehension f xs (AList.update k v d))"

section \<open>The data of a provider\<close>

text \<open>
  A desired endpoint, as \<^verbatim>\<open>generate_openshift_endpoint\<close> and
  \<^verbatim>\<open>generate_amazon_endpoint\<close> build it:
  \<^verbatim>\<open>{'endpoint': {...}, 'authentication': {...}}\<close>.
\<close>

record conn =
  endpoint :: jobject
  authentication :: jobject

text \<open>
  The fields that the module reads of the JSON answer of
  \<^verbatim>\<open>GET providers/<id>/?attributes=...\<close>; \<open>None\<close> is a key that is absent.
\<close>

record provider_json =
  r_authentications :: "jobject list option"
  r_endpoints :: "jobject list option"
  r_zone_id :: "pyval option"
  r_provider_region :: "pyval option"

text \<open>The dictionary \<^verbatim>\<open>{'hostname': ..., 'port': ...}\<close> that \<^verbatim>\<open>host_port\<close> returns.\<close>

record hp =
  hostname :: pyval
  port :: pyval

definition host_port :: "jobject \<Rightarrow> hp" where
  "host_port e = \<lparr>hostname = get_or e ''hostname'' PNone, port = get_or e ''port'' PNone\<rparr>"

definition hp_items :: "hp \<Rightarrow> jobject" where
  "hp_items h = [(''hostname'', hostname h), (''port'', port h)]"

text \<open>
  \<^verbatim>\<open>{k: v for k, v in ep.items() if k not in cur or v != cur[k]}\<close>
\<close>

definition changed_fields :: "hp \<Rightarrow> hp \<Rightarrow> jobject" where
  "changed_fields ep cur = filter (\<lambda>(k, v). map_of (hp_items cur) k \<noteq> Some v) (hp_items ep)"

text \<open>
  A value of the \<^verbatim>\<open>Updated\<close> dictionary: the changed fields of a role, or the new
  zone id or region stored under \<^verbatim>\<open>'zone_id'\<close> or \<^verbatim>\<open>'provider_region'\<close>.
\<close>

datatype upd = Fields jobject | Scalar pyval

text \<open>
  What \<^verbatim>\<open>required_updates\<close> returns: the empty hash \<^verbatim>\<open>{}\<close>, or
  \<^verbatim>\<open>{"Updated": updated, "Added": added, "Removed": removed}\<close>.
\<close>

datatype updates = EmptyHash | Changes "(pyval, upd) dict" "(pyval, hp) dict" "(pyval, hp) dict"

fun Updated :: "updates \<Rightarrow> (pyval, upd) dict" where
  "Updated EmptyHash = []"
| "Updated (Changes u a r) = u"

fun Added :: "updates \<Rightarrow> (pyval, hp) dict" where
  "Added EmptyHash = []"
| "Added (Changes u a r) = a"

fun Removed :: "updates \<Rightarrow> (pyval, hp) dict" where
  "Removed EmptyHash = []"
| "Removed (Changes u a r) = r"

section \<open>The diff of \<^verbatim>\<open>required_updates\<close>\<close>

definition desired_by_role :: "conn list \<Rightarrow> exn + (pyval, hp) dict" where
  "desired_by_role endpoints =
     comprehension (\<lambda>e. case item (endpoint e) ''role'' of
                          Inl x \<Rightarrow> Inl x
                        | Inr role \<Rightarrow> Inr (role, host_port (endpoint e))) endpoints []"

definition result_by_role :: "provider_json \<Rightarrow> exn + (pyval, hp) dict" where
  "result_by_role result =
     (case r_endpoints result of
        None \<Rightarrow> Inl (KeyError (PStr ''endpoints''))
      | Some es \<Rightarrow>
          comprehension (\<lambda>e. case item e ''role'' of
                               Inl x \<Rightarrow> Inl x
                             | Inr role \<Rightarrow> Inr (role, host_port e)) es [])"

text \<open>Python's \<^verbatim>\<open>==\<close> on two dictionaries: the same keys with equal values.\<close>

definition dict_eq :: "('k, 'v) dict \<Rightarrow> ('k, 'v) dict \<Rightarrow> bool" where
  "dict_eq d1 d2 = list_all (\<lambda>k. map_of d1 k = map_of d2 k) (map fst d1 @ map fst d2)"

definition existing_provider_region :: "provider_json \<Rightarrow> pyval" where
  "existing_provider_region result =
     (case r_provider_region result of
        None \<Rightarrow> PNone
      | Some v \<Rightarrow> if truthy v then v else PNone)"

definition updated_roles :: "(pyval, hp) dict \<Rightarrow> (pyval, hp) dict \<Rightarrow> (pyval, upd) dict" where
  "updated_roles desired current =
     List.map_filter
       (\<lambda>(role, ep). case map_of current role of
                        None \<Rightarrow> None
                      | Some cur \<Rightarrow> if ep \<noteq> cur then Some (role, Fields (changed_fields ep cur))
                                   else None)
       desired"

definition added_roles :: "(pyval, hp) dict \<Rightarrow> (pyval, hp) dict \<Rightarrow> (pyval, hp) dict" where
  "added_roles desired current = filter (\<lambda>(role, ep). map_of current role = None) desired"

definition removed_roles :: "(pyval, hp) dict \<Rightarrow> (pyval, hp) dict \<Rightarrow> (pyval, hp) dict" where
  "removed_roles desired current = filter (\<lambda>(role, ep). map_of desired role = None) current"

text \<open>
  The body of \<^verbatim>\<open>required_updates\<close> after the GET has answered \<open>result\<close>
  (lines 232 to 252). The lookups \<^verbatim>\<open>e['endpoint']['role']\<close>,
  \<^verbatim>\<open>result['endpoints']\<close>, \<^verbatim>\<open>e['role']\<close> and \<^verbatim>\<open>result['zone_id']\<close> raise
  \<^verbatim>\<open>KeyError\<close> outside the \<^verbatim>\<open>try\<close>. \<^verbatim>\<open>result['zone_id']\<close> is read on line 238
  or, when the two role dictionaries differ, on line 248: a missing key raises either way.
\<close>

definition diff_updates :: "provider_json \<Rightarrow> conn list \<Rightarrow> pyval \<Rightarrow> pyval \<Rightarrow> exn + updates" where
  "diff_updates result endpoints zone_id provider_region =
     (case desired_by_role endpoints of
        Inl x \<Rightarrow> Inl x
      | Inr desired \<Rightarrow>
     (case result_by_role result of
        Inl x \<Rightarrow> Inl x
      | Inr current \<Rightarrow>
     (case r_zone_id result of
        None \<Rightarrow> Inl (KeyError (PStr ''zone_id''))
      | Some result_zone_id \<Rightarrow>
          if dict_eq current desired \<and> result_zone_id = zone_id
             \<and> existing_provider_region result = provider_region
          then Inr EmptyHash
          else
            let updated = updated_roles desired current;
                added = added_roles desired current;
                removed = removed_roles desired current;
                updated = (if result_zone_id \<noteq> zone_id
                           then AList.update (PStr ''zone_id'') (Scalar zone_id) updated
                           else updated);
                updated = (if existing_provider_region result \<noteq> provider_region
                           then AList.update (PStr ''provider_region'') (Scalar provider_region) updated
                           else updated)
            in Inr (Changes updated added removed))))"

section \<open>The ManageIQ object and the API it talks to\<close>

text \<open>
  The URLs the module formats: a plain URL, or
  \<^verbatim>\<open>'{base}/{id}' + suffix\<close> with the id formatted in.
\<close>

datatype url = Plain string | WithId string pyval string

text \<open>The keyword arguments of the three POST calls.\<close>

datatype post_body =
    Edit pyval "conn list" pyval
  | Create string string pyval "conn list" pyval
  | Delete

text \<open>The fields that the module reads of the JSON answer of a POST.\<close>

record post_json =
  p_results :: "jobject list option"
  p_success :: "bool option"
  p_task_id :: "pyval option"
  p_message :: "pyval option"

text \<open>A member of \<^verbatim>\<open>client.collections.zones\<close> or \<^verbatim>\<open>client.collections.providers\<close>.\<close>

record entity =
  ent_id :: pyval
  ent_name :: string

text \<open>
  The object state: the API URL, the \<^verbatim>\<open>changed\<close> flag, and the API client. The
  client is the server as the run sees it: the two collections, the answer (a JSON
  object, or an exception raised) to the n-th GET and to the n-th POST of the run, and
  the calls and sleeps performed so far, oldest first.
\<close>

record miq =
  api_url :: string
  changed :: bool
  zones :: "entity list"
  providers :: "entity list"
  get_reply :: "nat \<Rightarrow> url \<Rightarrow> exn + provider_json"
  post_reply :: "nat \<Rightarrow> url \<times> post_body \<Rightarrow> exn + post_json"
  gets :: "url list"
  posts :: "(url \<times> post_body) list"
  sleeps :: "nat list"

definition providers_url :: "miq \<Rightarrow> string" where
  "providers_url s = api_url s @ ''/providers''"

text \<open>
  \<^verbatim>\<open>client.get(url)\<close> and \<^verbatim>\<open>client.post(url, **kwargs)\<close>: the call is logged and
  answered by the server.
\<close>

definition client_get :: "url \<Rightarrow> miq \<Rightarrow> (exn + provider_json) \<times> miq" where
  "client_get u s = (get_reply s (length (gets s)) u, s\<lparr>gets := gets s @ [u]\<rparr>)"

definition client_post :: "url \<Rightarrow> post_body \<Rightarrow> miq \<Rightarrow> (exn + post_json) \<times> miq" where
  "client_post u b s = (post_reply s (length (posts s)) (u, b), s\<lparr>posts := posts s @ [(u, b)]\<rparr>)"

definition WAIT_TIME :: nat where
  "WAIT_TIME = 5"

definition ITERATIONS :: nat where
  "ITERATIONS = 10"

definition sleep :: "nat \<Rightarrow> miq \<Rightarrow> miq" where
  "sleep t s = s\<lparr>sleeps := sleeps s @ [t]\<rparr>"


section \<open>\<^verbatim>\<open>auths_validation_details\<close> and the validation poller\<close>

text \<open>\<^verbatim>\<open>{auth['authtype']: auth for auth in result.get('authentications', [])}\<close>\<close>

definition auths_by_authtype :: "provider_json \<Rightarrow> exn + (pyval, jobject) dict" where
  "auths_by_authtype result =
     comprehension (\<lambda>auth. case item auth ''authtype'' of
                             Inl x \<Rightarrow> Inl x
                           | Inr t \<Rightarrow> Inr (t, auth))
       (case r_authentications result of None \<Rightarrow> [] | Some auths \<Rightarrow> auths) []"

definition auths_validation_details :: "pyval \<Rightarrow> miq \<Rightarrow> (abort + (pyval, jobject) dict) \<times> miq" where
  "auths_validation_details provider_id s =
     (case client_get (WithId (providers_url s) provider_id ''/?attributes=authentications'') s of
        (Inl e, s') \<Rightarrow> (Inl (FailJson ''Failed to get provider data. Error: %s'' e), s')
      | (Inr result, s') \<Rightarrow>
          (case auths_by_authtype result of
             Inl e \<Rightarrow> (Inl (FailJson ''Failed to get provider data. Error: %s'' e), s')
           | Inr d \<Rightarrow> (Inr d, s')))"

definition validated :: "jobject \<Rightarrow> jobject \<Rightarrow> bool" where
  "validated old new \<longleftrightarrow>
     (get_or old ''last_valid_on'' PNone, get_or old ''last_invalid_on'' PNone) \<noteq>
     (get_or new ''last_valid_on'' PNone, get_or new ''last_invalid_on'' PNone)"

definition validations_done :: "(pyval, jobject) dict \<Rightarrow> (pyval, jobject) dict \<Rightarrow> pyval list \<Rightarrow> bool" where
  "validations_done old_validation_details new_validation_details authtypes =
     list_all (\<lambda>t. validated (get_or old_validation_details t [])
                              (get_or new_validation_details t [])) authtypes"

type_synonym details = "(pyval, pyval \<times> pyval) dict"

definition details_of :: "(pyval, jobject) dict \<Rightarrow> pyval list \<Rightarrow> exn + details" where
  "details_of new_validation_details authtypes =
     comprehension (\<lambda>t. case map_of new_validation_details t of
                          None \<Rightarrow> Inl (KeyError t)
                        | Some a \<Rightarrow> Inr (t, (get_or a ''status'' (PStr ''Validation in progress''),
                                              get_or a ''status_details'' (PStr []))))
       authtypes []"

text \<open>\<^verbatim>\<open>new_validation_details[t]['status']\<close>\<close>

definition status_of :: "(pyval, jobject) dict \<Rightarrow> pyval \<Rightarrow> exn + pyval" where
  "status_of new_validation_details t =
     (case map_of new_validation_details t of
        None \<Rightarrow> Inl (KeyError t)
      | Some a \<Rightarrow> item a ''status'')"

text \<open>
  \<^verbatim>\<open>any(new_validation_details[t]['status'] not in ('Valid', None) for t in ...)\<close> and
  \<^verbatim>\<open>all(new_validation_details[t]['status'] == 'Valid' for t in ...)\<close>: both stop at
  the first element that decides them, and a lookup that raises before that raises.
\<close>

fun any_failed :: "(pyval, jobject) dict \<Rightarrow> pyval list \<Rightarrow> exn + bool" where
  "any_failed new [] = Inr False"
| "any_failed new (t # ts) =
     (case status_of new t of
        Inl x \<Rightarrow> Inl x
      | Inr st \<Rightarrow> if st \<noteq> PStr ''Valid'' \<and> st \<noteq> PNone then Inr True else any_failed new ts)"

fun all_valid :: "(pyval, jobject) dict \<Rightarrow> pyval list \<Rightarrow> exn + bool" where
  "all_valid new [] = Inr True"
| "all_valid new (t # ts) =
     (case status_of new t of
        Inl x \<Rightarrow> Inl x
      | Inr st \<Rightarrow> if st = PStr ''Valid'' then all_valid new ts else Inr False)"

text \<open>The second component of the result: \<^verbatim>\<open>'All Valid'\<close> or the details dictionary.\<close>

datatype validation = AllValid | Details details

text \<open>
  The loop \<^verbatim>\<open>for i in range(...)\<close> with \<open>n\<close> iterations left, followed by the
  \<^verbatim>\<open>return False, details\<close> after it; \<open>det\<close> is the variable \<^verbatim>\<open>details\<close>, unbound
  before the first iteration.
\<close>

fun poll :: "nat \<Rightarrow> pyval \<Rightarrow> (pyval, jobject) dict \<Rightarrow> pyval list \<Rightarrow> details option \<Rightarrow> miq
             \<Rightarrow> (abort + bool \<times> validation) \<times> miq" where
  "poll 0 provider_id old authtypes det s =
     (case det of
        None \<Rightarrow> (Inl (Uncaught UnboundLocalError), s)
      | Some details \<Rightarrow> (Inr (False, Details details), s))"
| "poll (Suc n) provider_id old authtypes det s =
     (case auths_validation_details provider_id s of
        (Inl e, s') \<Rightarrow> (Inl e, s')
      | (Inr new, s') \<Rightarrow>
          (case details_of new authtypes of
             Inl x \<Rightarrow> (Inl (Uncaught x), s')
           | Inr details \<Rightarrow>
               if validations_done old new authtypes then
                 (case any_failed new authtypes of
                    Inl x \<Rightarrow> (Inl (Uncaught x), s')
                  | Inr True \<Rightarrow> (Inr (False, Details details), s')
                  | Inr False \<Rightarrow>
                      (case all_valid new authtypes of
                         Inl x \<Rightarrow> (Inl (Uncaught x), s')
                       | Inr True \<Rightarrow> (Inr (True, AllValid), s')
                       | Inr False \<Rightarrow>
                           poll n provider_id old authtypes (Some details) (sleep WAIT_TIME s')))
               else poll n provider_id old authtypes (Some details) (sleep WAIT_TIME s')))"

definition verify_authenticaion_validation ::
  "pyval \<Rightarrow> (pyval, jobject) dict \<Rightarrow> pyval list \<Rightarrow> miq \<Rightarrow> (abort + bool \<times> validation) \<times> miq" where
  "verify_authenticaion_validation provider_id old_validation_details authtypes_to_verify s =
     poll ITERATIONS provider_id old_validation_details authtypes_to_verify None s"

section \<open>Reading and writing a provider\<close>

definition required_updates :: "pyval \<Rightarrow> conn list \<Rightarrow> pyval \<Rightarrow> pyval \<Rightarrow> miq \<Rightarrow> (abort + updates) \<times> miq" where
  "required_updates provider_id endpoints zone_id provider_region s =
     (case client_get (WithId (providers_url s) provider_id ''/?attributes=endpoints'') s of
        (Inl e, s') \<Rightarrow> (Inl (FailJson ''Failed to get provider data. Error: {!r}'' e), s')
      | (Inr result, s') \<Rightarrow>
          (case diff_updates result endpoints zone_id provider_region of
             Inl x \<Rightarrow> (Inl (Uncaught x), s')
           | Inr u \<Rightarrow> (Inr u, s')))"




text \<open>\<^verbatim>\<open>next((x.id for x in collection if x.name == name), None)\<close>\<close>

definition find_by_name :: "entity list \<Rightarrow> string \<Rightarrow> pyval" where
  "find_by_name collection n =
     (case find (\<lambda>x. ent_name x = n) collection of None \<Rightarrow> PNone | Some x \<Rightarrow> ent_id x)"


definition find_provider_by_name :: "string \<Rightarrow> miq \<Rightarrow> pyval" where
  "find_provider_by_name provider_name s = find_by_name (providers s) provider_name"

section \<open>\<^verbatim>\<open>delete_provider\<close>\<close>

text \<open>
  The dictionary \<^verbatim>\<open>delete_provider\<close> returns; \<open>d_api_error\<close> is \<open>None\<close> when the
  key \<^verbatim>\<open>api_error\<close> is absent.
\<close>

record delete_result =
  d_task_id :: pyval
  d_changed :: bool
  d_api_error :: "post_json option"
  d_msg :: pyval

text \<open>
  Lines 330 to 334, inside the \<^verbatim>\<open>try\<close>: what \<^verbatim>\<open>delete_provider\<close> makes of the
  answer to its POST.
\<close>

definition delete_reply :: "string \<Rightarrow> post_json \<Rightarrow> miq \<Rightarrow> (exn + delete_result) \<times> miq" where
  "delete_reply provider_name result s =
     (case p_success result of
        None \<Rightarrow> (Inl (KeyError (PStr ''success'')), s)
      | Some True \<Rightarrow>
          (let s' = s\<lparr>changed := True\<rparr> in
           case p_task_id result of
             None \<Rightarrow> (Inl (KeyError (PStr ''task_id'')), s')
           | Some t \<Rightarrow>
               (case p_message result of
                  None \<Rightarrow> (Inl (KeyError (PStr ''message'')), s')
                | Some m \<Rightarrow>
                    (Inr \<lparr>d_task_id = t, d_changed = changed s', d_api_error = None, d_msg = m\<rparr>, s')))
      | Some False \<Rightarrow>
          (Inr \<lparr>d_task_id = PNone, d_changed = changed s, d_api_error = Some result,
                d_msg = PStr (''Failed to delete '' @ provider_name @ '' provider'')\<rparr>, s))"

definition delete_provider :: "string \<Rightarrow> miq \<Rightarrow> (abort + delete_result) \<times> miq" where
  "delete_provider provider_name s =
     (let provider_id = find_provider_by_name provider_name s in
      if truthy provider_id then
        (case client_post (WithId (providers_url s) provider_id []) Delete s of
           (Inl e, s') \<Rightarrow>
             (Inl (FailJson (''Failed to delete '' @ provider_name @ '' provider. Error: {error!r}'') e), s')
         | (Inr result, s') \<Rightarrow>
             (case delete_reply provider_name result s' of
                (Inl e, s'') \<Rightarrow>
                  (Inl (FailJson (''Failed to delete '' @ provider_name @ '' provider. Error: {error!r}'') e), s'')
              | (Inr res, s'') \<Rightarrow> (Inr res, s'')))
      else
        (Inr \<lparr>d_task_id = PNone, d_changed = changed s, d_api_error = None,
              d_msg = PStr (''Provider '' @ provider_name @ '' doesn't exist'')\<rparr>, s))"

section \<open>\<^verbatim>\<open>add_or_update_provider\<close>\<close>




text \<open>
  The loop of lines 370 to 373, which appends to \<^verbatim>\<open>authtypes_to_verify\<close> (here
  \<open>acc\<close>) the authentication type of every endpoint whose role is in
  \<^verbatim>\<open>roles_with_changes\<close>.
\<close>

fun authtypes_to_verify :: "conn list \<Rightarrow> pyval list \<Rightarrow> pyval list \<Rightarrow> exn + pyval list" where
  "authtypes_to_verify [] roles_with_changes acc = Inr acc"
| "authtypes_to_verify (e # es) roles_with_changes acc =
     (case item (endpoint e) ''role'' of
        Inl x \<Rightarrow> Inl x
      | Inr role \<Rightarrow>
          if role \<in> set roles_with_changes then
            (case item (authentication e) ''authtype'' of
               Inl x \<Rightarrow> Inl x
             | Inr a \<Rightarrow> authtypes_to_verify es roles_with_changes (acc @ [a]))
          else authtypes_to_verify es roles_with_changes acc)"






section \<open>The constructor and the two GET requests\<close>

text \<open>\<^verbatim>\<open>ManageIQ.__init__\<close>: a fresh object over a given client.\<close>

definition init :: "string \<Rightarrow> entity list \<Rightarrow> entity list \<Rightarrow> (nat \<Rightarrow> url \<Rightarrow> exn + provider_json)
                    \<Rightarrow> (nat \<Rightarrow> url \<times> post_body \<Rightarrow> exn + post_json) \<Rightarrow> miq" where
  "init url zs ps g p =
     \<lparr>api_url = url @ ''/api'', changed = False, zones = zs, providers = ps,
      get_reply = g, post_reply = p, gets = [], posts = [], sleeps = []\<rparr>"

text \<open>
  The URL of \<^verbatim>\<open>auths_validation_details\<close>, what that function makes of the answer
  to the \<open>i\<close>-th GET of the run, and the state after its GET.
\<close>

definition auth_url :: "miq \<Rightarrow> pyval \<Rightarrow> url" where
  "auth_url s provider_id = WithId (providers_url s) provider_id ''/?attributes=authentications''"

definition reply_details :: "miq \<Rightarrow> pyval \<Rightarrow> nat \<Rightarrow> exn + (pyval, jobject) dict" where
  "reply_details s provider_id i =
     (case get_reply s i (auth_url s provider_id) of
        Inl e \<Rightarrow> Inl e
      | Inr result \<Rightarrow> auths_by_authtype result)"

definition fetched :: "miq \<Rightarrow> pyval \<Rightarrow> miq" where
  "fetched s provider_id = s\<lparr>gets := gets s @ [auth_url s provider_id]\<rparr>"

text \<open>The URL of the GET of \<^verbatim>\<open>required_updates\<close>.\<close>

definition endpoints_url :: "miq \<Rightarrow> pyval \<Rightarrow> url" where
  "endpoints_url s provider_id = WithId (providers_url s) provider_id ''/?attributes=endpoints''"

section \<open>Example servers\<close>

definition miq_url :: string where
  "miq_url = ''http://miq.example.com''"

text \<open>POST answers: a server that refuses every POST, and one that accepts every POST.\<close>

definition no_post :: "nat \<Rightarrow> url \<times> post_body \<Rightarrow> exn + post_json" where
  "no_post n b = Inl (ApiError ''connection refused'')"

definition ok_post :: "nat \<Rightarrow> url \<times> post_body \<Rightarrow> exn + post_json" where
  "ok_post n b = Inr \<lparr>p_results = Some [[(''id'', PInt 267)]], p_success = Some True,
                       p_task_id = Some (PInt 7), p_message = Some (PStr ''done'')\<rparr>"

text \<open>
  Desired endpoints: the endpoints \<^verbatim>\<open>default\<close> and \<^verbatim>\<open>hawkular\<close> that \<^verbatim>\<open>main\<close>
  builds for an OpenShift provider with metrics, the endpoint \<^verbatim>\<open>default\<close> alone with a
  given token, and an endpoint whose role is named \<^verbatim>\<open>zone_id\<close>.
\<close>

definition openshift_endpoints :: "conn list" where
  "openshift_endpoints =
     [\<lparr>endpoint = [(''role'', PStr ''default''), (''hostname'', PStr ''os01.example.com''),
                   (''port'', PInt 8443)],
       authentication = [(''authtype'', PStr ''bearer''), (''auth_key'', PStr ''secret'')]\<rparr>,
      \<lparr>endpoint = [(''role'', PStr ''hawkular''), (''hostname'', PStr ''hawkular01.example.com''),
                   (''port'', PInt 443)],
       authentication = [(''authtype'', PStr ''hawkular''), (''auth_key'', PStr ''secret'')]\<rparr>]"


definition clash_endpoints :: "conn list" where
  "clash_endpoints = [\<lparr>endpoint = [(''role'', PStr ''zone_id'')],
                        authentication = [(''authtype'', PStr ''bearer'')]\<rparr>]"

text \<open>
  Answers about the authentications of a provider: records without timestamps, with a
  successful validation, with a failed validation, and with a failure status but no
  timestamps.
\<close>

definition auths_json :: "jobject list \<Rightarrow> provider_json" where
  "auths_json auths = \<lparr>r_authentications = Some auths, r_endpoints = None,
                        r_zone_id = None, r_provider_region = None\<rparr>"

definition unvalidated :: "string \<Rightarrow> jobject" where
  "unvalidated t = [(''authtype'', PStr t), (''last_valid_on'', PNone), (''last_invalid_on'', PNone)]"

definition valid_auth :: "string \<Rightarrow> jobject" where
  "valid_auth t = [(''authtype'', PStr t), (''status'', PStr ''Valid''), (''status_details'', PStr ''Ok''),
                   (''last_valid_on'', PStr ''2017-03-01T10:00:05Z''), (''last_invalid_on'', PNone)]"

definition invalid_auth :: "string \<Rightarrow> jobject" where
  "invalid_auth t = [(''authtype'', PStr t), (''status'', PStr ''Invalid''),
                     (''status_details'', PStr ''Login failed''),
                     (''last_valid_on'', PNone), (''last_invalid_on'', PStr ''2017-03-01T10:00:01Z'')]"


text \<open>
  Answers about the endpoints of a provider: a provider without endpoints; a provider
  whose endpoints drifted from \<^verbatim>\<open>openshift_endpoints\<close>, and the diff expected for it
  when the desired zone id is 2; a provider in sync with \<^verbatim>\<open>openshift_default\<close>, with a
  given remote region.
\<close>

definition clash_reply :: "nat \<Rightarrow> url \<Rightarrow> exn + provider_json" where
  "clash_reply n u = Inr \<lparr>r_authentications = None, r_endpoints = Some [],
                           r_zone_id = Some (PInt 1), r_provider_region = None\<rparr>"

definition drifted_json :: provider_json where
  "drifted_json =
     \<lparr>r_authentications = Some [[(''authtype'', PStr ''bearer''), (''status'', PStr ''Valid'')]],
          r_endpoints = Some [[(''role'', PStr ''default''), (''hostname'', PStr ''old.example.com''),
                               (''port'', PInt 8443)],
                              [(''role'', PStr ''prometheus''), (''hostname'', PStr ''prom.example.com''),
                               (''port'', PInt 9090)]],
          r_zone_id = Some (PInt 1), r_provider_region = None\<rparr>"

definition drifted_reply :: "nat \<Rightarrow> url \<Rightarrow> exn + provider_json" where
  "drifted_reply n u = Inr drifted_json"

definition drifted_updates :: updates where
  "drifted_updates =
     Changes [(PStr ''default'', Fields [(''hostname'', PStr ''os01.example.com'')]),
              (PStr ''zone_id'', Scalar (PInt 2))]
             [(PStr ''hawkular'', \<lparr>hostname = PStr ''hawkular01.example.com'', port = PInt 443\<rparr>)]
             [(PStr ''prometheus'', \<lparr>hostname = PStr ''prom.example.com'', port = PInt 9090\<rparr>)]"

definition synced_json :: "pyval option \<Rightarrow> provider_json" where
  "synced_json region =
     \<lparr>r_authentications = Some [valid_auth ''bearer''],
      r_endpoints = Some [[(''role'', PStr ''default''), (''hostname'', PStr ''os01.example.com''),
                           (''port'', PInt 8443)]],
      r_zone_id = Some (PInt 1), r_provider_region = region\<rparr>"

definition synced_reply :: "pyval option \<Rightarrow> nat \<Rightarrow> url \<Rightarrow> exn + provider_json" where
  "synced_reply region n u = Inr (synced_json region)"

text \<open>
  A server that knows the zone \<^verbatim>\<open>default\<close> and the provider \<^verbatim>\<open>openshift01\<close>.
\<close>

definition miq_server :: "(nat \<Rightarrow> url \<Rightarrow> exn + provider_json) \<Rightarrow> miq" where
  "miq_server g = init miq_url [\<lparr>ent_id = PInt 1, ent_name = ''default''\<rparr>]
                    [\<lparr>ent_id = PInt 266, ent_name = ''openshift01''\<rparr>] g ok_post"

text \<open>Servers that answer with these records.\<close>

definition retry_reply :: "nat \<Rightarrow> url \<Rightarrow> exn + provider_json" where
  "retry_reply n u = (if n = 0 then Inr (auths_json [unvalidated ''bearer''])
                      else Inr (auths_json [valid_auth ''bearer'']))"


definition staggered_reply :: "nat \<Rightarrow> url \<Rightarrow> exn + provider_json" where
  "staggered_reply n u =
     (if n = 0 then Inr (auths_json [invalid_auth ''bearer'', unvalidated ''hawkular''])
      else Inr (auths_json [invalid_auth ''bearer'', valid_auth ''hawkular'']))"

definition partial_reply :: "nat \<Rightarrow> url \<Rightarrow> exn + provider_json" where
  "partial_reply n u = Inr (auths_json [valid_auth ''bearer''])"

section \<open>The custom-attribute reconciler\<close>

text \<open>
  Modelled from the spec: the module \<^verbatim>\<open>manageiq_custom_attributes\<close> is not among the
  sources (only its tests are). A custom attribute is \<^verbatim>\<open>{name, section, value}\<close> (spec,
  section 3), as the tests build it.
\<close>

record custom_attribute =
  ca_name :: string
  ca_section :: string
  ca_value :: string

text \<open>
  Modelled from the spec: the module \<^verbatim>\<open>manageiq_custom_attributes\<close> is not among the
  sources (only its tests are). The composite key of a custom attribute is
  \<^verbatim>\<open>(name, section)\<close> (spec, section 3).
\<close>

definition ca_key :: "custom_attribute \<Rightarrow> string \<times> string" where
  "ca_key a = (ca_name a, ca_section a)"

text \<open>
  Modelled from the spec: the module \<^verbatim>\<open>manageiq_custom_attributes\<close> is not among the
  sources. \<^verbatim>\<open>Added\<close> holds the desired records whose key is absent on the remote side
  (spec, section 4.2, step 4).
\<close>

definition ca_added :: "custom_attribute list \<Rightarrow> custom_attribute list \<Rightarrow> custom_attribute list" where
  "ca_added desired current = filter (\<lambda>d. ca_key d \<notin> set (map ca_key current)) desired"

text \<open>
  Modelled from the spec: the module \<^verbatim>\<open>manageiq_custom_attributes\<close> is not among the
  sources. \<^verbatim>\<open>Updated\<close> holds the desired records whose key is present on both sides
  with a differing field, which for the key \<^verbatim>\<open>(name, section)\<close> is the value (spec,
  section 4.2, step 3).
\<close>

definition ca_updated :: "custom_attribute list \<Rightarrow> custom_attribute list \<Rightarrow> custom_attribute list" where
  "ca_updated desired current =
     filter (\<lambda>d. list_ex (\<lambda>c. ca_key c = ca_key d \<and> ca_value c \<noteq> ca_value d) current) desired"

section \<open>Facts about dictionaries and the diff\<close>

lemma keys_update: "keys (AList.update k v d) = insert k (keys d)"
  by (simp add: keys_def AList.dom_update)

lemma map_of_None_keys: "map_of d k = None \<longleftrightarrow> k \<notin> keys d"
  by (simp add: keys_def map_of_eq_None_iff)

lemma map_of_Some_keys: "map_of d k = Some v \<Longrightarrow> k \<in> keys d"
  unfolding keys_def by (metis fst_conv image_eqI map_of_SomeD)

lemma comprehension_distinct:
  "comprehension f xs d = Inr d' \<Longrightarrow> distinct (map fst d) \<Longrightarrow> distinct (map fst d')"
  by (induction xs arbitrary: d) (auto split: sum.splits simp: AList.distinct_update)

lemma desired_by_role_distinct: "desired_by_role es = Inr d \<Longrightarrow> distinct (map fst d)"
  unfolding desired_by_role_def by (drule comprehension_distinct) simp_all

lemma result_by_role_distinct: "result_by_role r = Inr d \<Longrightarrow> distinct (map fst d)"
  unfolding result_by_role_def by (auto split: option.splits dest: comprehension_distinct)

lemma dict_eq_iff: "dict_eq d1 d2 \<longleftrightarrow> map_of d1 = map_of d2"
proof
  assume h: "dict_eq d1 d2"
  show "map_of d1 = map_of d2"
  proof
    fix k
    show "map_of d1 k = map_of d2 k"
    proof (cases "k \<in> fst ` set d1 \<union> fst ` set d2")
      case True
      with h show ?thesis by (auto simp: dict_eq_def list_all_iff)
    next
      case False
      then have "map_of d1 k = None" and "map_of d2 k = None"
        by (auto simp: map_of_eq_None_iff)
      then show ?thesis by simp
    qed
  qed
next
  assume "map_of d1 = map_of d2"
  then show "dict_eq d1 d2" by (simp add: dict_eq_def list_all_iff)
qed

lemma keys_added_roles: "keys (added_roles desired current) = keys desired - keys current"
  by (auto simp: added_roles_def keys_def map_of_eq_None_iff image_iff)

lemma keys_removed_roles: "keys (removed_roles desired current) = keys current - keys desired"
  by (auto simp: removed_roles_def keys_def map_of_eq_None_iff image_iff)

lemma in_keys_updated_roles:
  "role \<in> keys (updated_roles desired current) \<longleftrightarrow>
   (\<exists>ep cur. (role, ep) \<in> set desired \<and> map_of current role = Some cur \<and> ep \<noteq> cur)"
  unfolding updated_roles_def keys_def
  by (induction desired) (auto split: option.splits if_splits)

lemma keys_updated_roles:
  assumes "distinct (map fst desired)"
  shows "keys (updated_roles desired current) =
         {role \<in> keys desired \<inter> keys current. map_of desired role \<noteq> map_of current role}"
proof (rule set_eqI)
  fix role
  have a: "\<And>ep. (role, ep) \<in> set desired \<longleftrightarrow> map_of desired role = Some ep"
    using assms by simp
  show "role \<in> keys (updated_roles desired current) \<longleftrightarrow>
        role \<in> {role \<in> keys desired \<inter> keys current. map_of desired role \<noteq> map_of current role}"
    unfolding in_keys_updated_roles a
    by (cases "map_of desired role"; cases "map_of current role")
       (auto simp: map_of_None_keys[symmetric] dest: map_of_Some_keys)
qed

lemma keys_map_of_eq: "map_of d1 = map_of d2 \<Longrightarrow> keys d1 = keys d2"
  unfolding keys_def by (metis dom_map_of_conv_image_fst)

lemma diff_updates_cases:
  assumes "diff_updates result endpoints zone_id provider_region = Inr u"
    and "desired_by_role endpoints = Inr desired"
    and "result_by_role result = Inr current"
  obtains (same) "u = EmptyHash" and "map_of current = map_of desired"
  | (changes) U where "u = Changes U (added_roles desired current) (removed_roles desired current)"
      and "keys (updated_roles desired current) \<subseteq> keys U"
      and "keys U \<subseteq> keys (updated_roles desired current) \<union> {PStr ''zone_id'', PStr ''provider_region''}"
proof -
  note u = assms(1)[unfolded diff_updates_def assms(2) assms(3), simplified]
  show thesis
  proof (cases u)
    case EmptyHash
    with u have "map_of current = map_of desired"
      by (auto simp: dict_eq_iff Let_def split: option.splits if_splits)
    with EmptyHash show thesis by (rule same)
  next
    case (Changes U A R)
    with u have a: "A = added_roles desired current" and r: "R = removed_roles desired current"
      by (auto simp: Let_def split: option.splits if_splits)
    from u Changes have "keys (updated_roles desired current) \<subseteq> keys U
        \<and> keys U \<subseteq> keys (updated_roles desired current) \<union> {PStr ''zone_id'', PStr ''provider_region''}"
      by (auto simp: Let_def keys_update split: option.splits if_splits)
    with Changes a r show thesis by (intro changes) auto
  qed
qed

lemma diff_updates_keys:
  assumes "diff_updates result endpoints zone_id provider_region = Inr u"
    and "desired_by_role endpoints = Inr desired"
    and "result_by_role result = Inr current"
  shows "keys (Added u) = keys desired - keys current"
    and "keys (Removed u) = keys current - keys desired"
    and "{role \<in> keys desired \<inter> keys current. map_of desired role \<noteq> map_of current role}
           \<subseteq> keys (Updated u)"
    and "keys (Updated u) \<subseteq>
           {role \<in> keys desired \<inter> keys current. map_of desired role \<noteq> map_of current role}
           \<union> {PStr ''zone_id'', PStr ''provider_region''}"
proof -
  have d: "distinct (map fst desired)"
    using assms(2) by (rule desired_by_role_distinct)
  note k = keys_updated_roles[OF d, of current]
  from assms have "keys (Added u) = keys desired - keys current
    \<and> keys (Removed u) = keys current - keys desired
    \<and> {role \<in> keys desired \<inter> keys current. map_of desired role \<noteq> map_of current role}
           \<subseteq> keys (Updated u)
    \<and> keys (Updated u) \<subseteq>
           {role \<in> keys desired \<inter> keys current. map_of desired role \<noteq> map_of current role}
           \<union> {PStr ''zone_id'', PStr ''provider_region''}"
  proof (cases rule: diff_updates_cases)
    case same
    then show ?thesis using keys_map_of_eq[OF same(2)] by (simp add: keys_def)
  next
    case (changes U)
    then show ?thesis unfolding k[symmetric]
      by (simp add: keys_added_roles keys_removed_roles)
  qed
  then show "keys (Added u) = keys desired - keys current"
    and "keys (Removed u) = keys current - keys desired"
    and "{role \<in> keys desired \<inter> keys current. map_of desired role \<noteq> map_of current role}
           \<subseteq> keys (Updated u)"
    and "keys (Updated u) \<subseteq>
           {role \<in> keys desired \<inter> keys current. map_of desired role \<noteq> map_of current role}
           \<union> {PStr ''zone_id'', PStr ''provider_region''}"
    by blast+
qed


section \<open>Facts about the validation poller\<close>

lemma auths_validation_details_eq:
  "auths_validation_details provider_id s =
     (case reply_details s provider_id (length (gets s)) of
        Inl e \<Rightarrow> Inl (FailJson ''Failed to get provider data. Error: %s'' e)
      | Inr d \<Rightarrow> Inr d,
      fetched s provider_id)"
  by (simp add: auths_validation_details_def reply_details_def client_get_def auth_url_def
        fetched_def split: sum.splits)

lemma reply_details_frame [simp]:
  "reply_details (s\<lparr>gets := g\<rparr>) p i = reply_details s p i"
  "reply_details (s\<lparr>sleeps := sl\<rparr>) p i = reply_details s p i"
  by (simp_all add: reply_details_def auth_url_def providers_url_def)

lemma auth_url_frame [simp]:
  "auth_url (s\<lparr>gets := g\<rparr>) p = auth_url s p"
  "auth_url (s\<lparr>sleeps := sl\<rparr>) p = auth_url s p"
  by (simp_all add: auth_url_def providers_url_def)

lemma comprehension_Inr_iff:
  "(\<exists>d'. comprehension f xs d = Inr d') \<longleftrightarrow> (\<forall>x \<in> set xs. \<exists>kv. f x = Inr kv)"
  by (induction xs arbitrary: d) (auto split: sum.splits)

lemma comprehension_Inl:
  "comprehension f xs d = Inl e \<Longrightarrow> \<exists>x \<in> set xs. f x = Inl e"
  by (induction xs arbitrary: d) (auto split: sum.splits)

lemma details_of_Inr_iff:
  "(\<exists>d. details_of new ts = Inr d) \<longleftrightarrow> set ts \<subseteq> keys new"
  unfolding details_of_def comprehension_Inr_iff
  by (auto simp: keys_def map_of_eq_None_iff split: option.splits) 

lemma details_of_Inl:
  "details_of new ts = Inl e \<Longrightarrow> \<exists>t \<in> set ts. t \<notin> keys new \<and> e = KeyError t"
  unfolding details_of_def
  by (drule comprehension_Inl) (auto simp: keys_def map_of_eq_None_iff split: option.splits)

text \<open>An iteration whose answer leaves an authtype unsettled sleeps and goes on.\<close>

lemma poll_Suc_unsettled:
  assumes "reply_details s p (length (gets s)) = Inr new"
    and "details_of new ts = Inr d"
    and "\<not> validations_done old new ts"
  shows "poll (Suc n) p old ts det s = poll n p old ts (Some d) (sleep WAIT_TIME (fetched s p))"
  using assms by (simp add: auths_validation_details_eq)



lemma fetched_simps [simp]:
  "gets (fetched s p) = gets s @ [auth_url s p]"
  "sleeps (fetched s p) = sleeps s"
  "reply_details (fetched s p) q i = reply_details s q i"
  "auth_url (fetched s p) q = auth_url s q"
  by (simp_all add: fetched_def)

lemma sleep_simps [simp]:
  "gets (sleep w s) = gets s"
  "sleeps (sleep w s) = sleeps s @ [w]"
  "reply_details (sleep w s) q i = reply_details s q i"
  "auth_url (sleep w s) q = auth_url s q"
  by (simp_all add: sleep_def)

lemma poll_Suc_cases:
  assumes "poll (Suc n) p old ts det s = (r, s')"
  obtains
    (fetch_failed) e where "reply_details s p (length (gets s)) = Inl e"
      and "r = Inl (FailJson ''Failed to get provider data. Error: %s'' e)" and "s' = fetched s p"
  | (missing) new x where "reply_details s p (length (gets s)) = Inr new"
      and "details_of new ts = Inl x" and "r = Inl (Uncaught x)" and "s' = fetched s p"
  | (no_status) new d x where "reply_details s p (length (gets s)) = Inr new"
      and "details_of new ts = Inr d" and "validations_done old new ts"
      and "any_failed new ts = Inl x \<or> (any_failed new ts = Inr False \<and> all_valid new ts = Inl x)"
      and "r = Inl (Uncaught x)" and "s' = fetched s p"
  | (failed) new d where "reply_details s p (length (gets s)) = Inr new"
      and "details_of new ts = Inr d" and "validations_done old new ts"
      and "any_failed new ts = Inr True"
      and "r = Inr (False, Details d)" and "s' = fetched s p"
  | (valid) new d where "reply_details s p (length (gets s)) = Inr new"
      and "details_of new ts = Inr d" and "validations_done old new ts"
      and "any_failed new ts = Inr False" and "all_valid new ts = Inr True"
      and "r = Inr (True, AllValid)" and "s' = fetched s p"
  | (continue) new d where "reply_details s p (length (gets s)) = Inr new"
      and "details_of new ts = Inr d"
      and "\<not> validations_done old new ts \<or> (any_failed new ts = Inr False \<and> all_valid new ts = Inr False)"
      and "poll n p old ts (Some d) (sleep WAIT_TIME (fetched s p)) = (r, s')"
proof (cases "reply_details s p (length (gets s))")
  case (Inl e)
  with assms show thesis
    by (intro fetch_failed[of e]) (simp_all add: auths_validation_details_eq)
next
  case new: (Inr new)
  show thesis
  proof (cases "details_of new ts")
    case (Inl x)
    with assms new show thesis
      by (intro missing[of new x]) (simp_all add: auths_validation_details_eq)
  next
    case d: (Inr d)
    show thesis
    proof (cases "validations_done old new ts")
      case False
      with assms new d show thesis
        by (intro continue[of new d]) (simp_all add: auths_validation_details_eq)
    next
      case True
      show thesis
      proof (cases "any_failed new ts")
        case (Inl x)
        with assms new d True show thesis
          by (intro no_status[of new d x]) (simp_all add: auths_validation_details_eq)
      next
        case af: (Inr b)
        show thesis
        proof (cases b)
          case True
          with assms new d \<open>validations_done old new ts\<close> af show thesis
            by (intro failed[of new d]) (simp_all add: auths_validation_details_eq)
        next
          case nf: False
          show thesis
          proof (cases "all_valid new ts")
            case (Inl x)
            with assms new d \<open>validations_done old new ts\<close> af nf show thesis
              by (intro no_status[of new d x]) (simp_all add: auths_validation_details_eq)
          next
            case av: (Inr c)
            show thesis
            proof (cases c)
              case True
              with assms new d \<open>validations_done old new ts\<close> af nf av show thesis
                by (intro valid[of new d]) (simp_all add: auths_validation_details_eq)
            next
              case False
              with assms new d \<open>validations_done old new ts\<close> af nf av show thesis
                by (intro continue[of new d]) (simp_all add: auths_validation_details_eq)
            qed
          qed
        qed
      qed
    qed
  qed
qed

lemma poll_gets_mono:
  "poll n p old ts det s = (r, s') \<Longrightarrow> length (gets s) \<le> length (gets s')"
proof (induction n arbitrary: s det)
  case 0
  then show ?case by (auto split: option.splits)
next
  case (Suc n)
  from Suc.prems show ?case
  proof (cases rule: poll_Suc_cases)
    case (continue new d)
    from Suc.IH[OF continue(4)] show ?thesis by simp
  qed simp_all
qed

lemma poll_in_loop_return:
  assumes "poll n p old ts det s = (Inr (ok, v), s')"
    and "length (sleeps s') < length (sleeps s) + n"
  shows "\<exists>new d. reply_details s p (length (gets s') - 1) = Inr new
           \<and> validations_done old new ts
           \<and> details_of new ts = Inr d
           \<and> (if ok then any_failed new ts = Inr False \<and> all_valid new ts = Inr True \<and> v = AllValid
               else any_failed new ts = Inr True \<and> v = Details d)"
  using assms
proof (induction n arbitrary: s det)
  case 0
  then show ?case by (auto split: option.splits)
next
  case (Suc n)
  from Suc.prems(1) show ?case
  proof (cases rule: poll_Suc_cases)
    case (continue new d)
    have "length (sleeps s') < length (sleeps (sleep WAIT_TIME (fetched s p))) + n"
      using Suc.prems(2) by simp
    from Suc.IH[OF continue(4) this] show ?thesis by simp
  qed auto
qed

lemma poll_missing:
  assumes "poll n p old ts det s = (r, s')"
    and "length (gets s) + i < length (gets s')"
    and "reply_details s p (length (gets s) + i) = Inr new"
    and "t \<in> set ts" and "t \<notin> keys new"
  shows "\<exists>t' \<in> set ts. t' \<notin> keys new \<and> r = Inl (Uncaught (KeyError t'))"
  using assms(1,2,3)
proof (induction n arbitrary: s det i)
  case 0
  then show ?case by (auto split: option.splits)
next
  case (Suc n)
  have no: "\<And>d. details_of new ts \<noteq> Inr d"
    using assms(4,5) details_of_Inr_iff[of new ts] by blast
  from Suc.prems(1) show ?case
  proof (cases rule: poll_Suc_cases)
    case (missing new' x)
    with Suc.prems(2,3) have "new' = new" by simp
    with missing details_of_Inl[of new ts x] show ?thesis by blast
  next
    case (continue new' d)
    show ?thesis
    proof (cases i)
      case 0
      with continue Suc.prems(3) no show ?thesis by simp
    next
      case (Suc j)
      have a: "length (gets (sleep WAIT_TIME (fetched s p))) + j < length (gets s')"
        using Suc.prems(2) Suc by simp
      have b: "reply_details (sleep WAIT_TIME (fetched s p)) p
                 (length (gets (sleep WAIT_TIME (fetched s p))) + j) = Inr new"
        using Suc.prems(3) Suc by simp
      from Suc.IH[OF continue(4) a b] show ?thesis .
    qed
  next
    case (fetch_failed e)
    with Suc.prems(2,3) show ?thesis by simp
  next
    case (no_status new' d x)
    with Suc.prems(2,3) no show ?thesis by simp
  next
    case (failed new' d)
    with Suc.prems(2,3) no show ?thesis by simp
  next
    case (valid new' d)
    with Suc.prems(2,3) no show ?thesis by simp
  qed
qed

lemma poll_fetches_once:
  "length (gets s) < length (gets (snd (poll (Suc n) p old ts det s)))"
proof -
  obtain r s' where r: "poll (Suc n) p old ts det s = (r, s')"
    by (cases "poll (Suc n) p old ts det s")
  then have "length (gets s) < length (gets s')"
  proof (cases rule: poll_Suc_cases)
    case (continue new d)
    from poll_gets_mono[OF continue(4)] show ?thesis by simp
  qed simp_all
  with r show ?thesis by simp
qed

lemma poll_keeps_polling:
  assumes "\<forall>i<k. \<exists>new. reply_details s p (length (gets s) + i) = Inr new
                     \<and> set ts \<subseteq> keys new \<and> \<not> validations_done old new ts"
    and "k < n"
  shows "length (gets s) + k < length (gets (snd (poll n p old ts det s)))"
  using assms
proof (induction k arbitrary: n s det)
  case 0
  then obtain m where "n = Suc m" by (cases n) auto
  with poll_fetches_once[of s m p old ts det] show ?case by simp
next
  case (Suc k)
  from Suc.prems(2) obtain m where n: "n = Suc m" and km: "k < m" by (cases n) auto
  from Suc.prems(1) obtain new where new: "reply_details s p (length (gets s)) = Inr new"
      "set ts \<subseteq> keys new" "\<not> validations_done old new ts"
    by force
  from new(2) obtain d where d: "details_of new ts = Inr d"
    using details_of_Inr_iff by blast
  let ?s1 = "sleep WAIT_TIME (fetched s p)"
  have step: "poll (Suc m) p old ts det s = poll m p old ts (Some d) ?s1"
    using new(1) d new(3) by (rule poll_Suc_unsettled)
  have pre: "\<forall>i<k. \<exists>new. reply_details ?s1 p (length (gets ?s1) + i) = Inr new
                     \<and> set ts \<subseteq> keys new \<and> \<not> validations_done old new ts"
    using Suc.prems(1) by auto
  from Suc.IH[OF pre km, of "Some d"] show ?case
    unfolding n step by simp
qed

section \<open>Facts about \<^verbatim>\<open>add_or_update_provider\<close>\<close>





lemma required_updates_eq:
  "required_updates provider_id endpoints zone_id provider_region s =
     (case get_reply s (length (gets s)) (endpoints_url s provider_id) of
        Inl e \<Rightarrow> Inl (FailJson ''Failed to get provider data. Error: {!r}'' e)
      | Inr result \<Rightarrow>
          (case diff_updates result endpoints zone_id provider_region of
             Inl x \<Rightarrow> Inl (Uncaught x)
           | Inr u \<Rightarrow> Inr u),
      s\<lparr>gets := gets s @ [endpoints_url s provider_id]\<rparr>)"
  by (simp add: required_updates_def client_get_def endpoints_url_def split: sum.splits)






section \<open>The diff partitions the roles\<close>

text \<open>
  Claim C1, as amended. Whenever \<^verbatim>\<open>required_updates\<close> returns a diff \<open>u\<close> and no
  role on either side is named \<^verbatim>\<open>'zone_id'\<close> or \<^verbatim>\<open>'provider_region'\<close>, the key
  sets of \<^verbatim>\<open>Added\<close>, \<^verbatim>\<open>Updated\<close> and \<^verbatim>\<open>Removed\<close> are pairwise disjoint, a role
  of the desired or the current side is in none of them exactly when its
  \<^verbatim>\<open>{hostname, port}\<close> record is the same on both sides, and the three key sets hold
  nothing but roles and the two scalar field names.
\<close>

theorem required_updates_partition:
  assumes "fst (required_updates provider_id endpoints zone_id provider_region s) = Inr u"
    and "desired_by_role endpoints = Inr desired"
    and "get_reply s (length (gets s)) (endpoints_url s provider_id) = Inr result"
    and "result_by_role result = Inr current"
    and "PStr ''zone_id'' \<notin> keys desired \<union> keys current"
    and "PStr ''provider_region'' \<notin> keys desired \<union> keys current"
  shows "keys (Added u) \<inter> keys (Updated u) = {}
       \<and> keys (Added u) \<inter> keys (Removed u) = {}
       \<and> keys (Updated u) \<inter> keys (Removed u) = {}
       \<and> (\<forall>role \<in> keys desired \<union> keys current.
             (role \<notin> keys (Added u) \<union> keys (Updated u) \<union> keys (Removed u))
               = (map_of desired role = map_of current role))
       \<and> keys (Added u) \<union> keys (Updated u) \<union> keys (Removed u)
             \<subseteq> keys desired \<union> keys current \<union> {PStr ''zone_id'', PStr ''provider_region''}"
proof -
  from assms(1,3) have d: "diff_updates result endpoints zone_id provider_region = Inr u"
    by (auto simp: required_updates_eq split: sum.splits)
  note k = diff_updates_keys[OF d assms(2) assms(4)]
  have n: "\<And>role. role \<in> keys desired \<Longrightarrow> role \<notin> keys current \<Longrightarrow> map_of desired role \<noteq> map_of current role"
          "\<And>role. role \<notin> keys desired \<Longrightarrow> role \<in> keys current \<Longrightarrow> map_of desired role \<noteq> map_of current role"
    by (metis map_of_None_keys)+
  show ?thesis
    using k assms(5,6) n by (intro conjI ballI) blast+
qed

text \<open>
  Claim C1 as stated fails for a role named like a scalar field: a new desired endpoint
  with role \<^verbatim>\<open>'zone_id'\<close> and a changed zone put the key \<^verbatim>\<open>'zone_id'\<close> both into
  \<^verbatim>\<open>Added\<close> (line 244) and into \<^verbatim>\<open>Updated\<close> (line 249).
\<close>

theorem required_updates_partition_counterexample:
  "fst (required_updates (PInt 266) clash_endpoints (PInt 2) PNone
          (init miq_url [] [] clash_reply no_post))
     = Inr (Changes [(PStr ''zone_id'', Scalar (PInt 2))]
                    [(PStr ''zone_id'', \<lparr>hostname = PNone, port = PNone\<rparr>)] [])
   \<and> PStr ''zone_id'' \<in> keys (Added (Changes [(PStr ''zone_id'', Scalar (PInt 2))]
                    [(PStr ''zone_id'', \<lparr>hostname = PNone, port = PNone\<rparr>)] []))
                 \<inter> keys (Updated (Changes [(PStr ''zone_id'', Scalar (PInt 2))]
                    [(PStr ''zone_id'', \<lparr>hostname = PNone, port = PNone\<rparr>)] []))"
  by code_simp

text \<open>
  The hypotheses of the amended claim C1 hold of a provider whose \<^verbatim>\<open>default\<close>
  endpoint moved, whose \<^verbatim>\<open>hawkular\<close> endpoint is new, whose \<^verbatim>\<open>prometheus\<close>
  endpoint is no longer desired and whose zone changed.
\<close>

theorem required_updates_partition_witness:
  "fst (required_updates (PInt 266) openshift_endpoints (PInt 2) PNone
          (init miq_url [] [] drifted_reply no_post)) = Inr drifted_updates
   \<and> keys (Added drifted_updates) = {PStr ''hawkular''}
   \<and> keys (Updated drifted_updates) = {PStr ''default'', PStr ''zone_id''}
   \<and> keys (Removed drifted_updates) = {PStr ''prometheus''}
   \<and> keys (Added drifted_updates) \<inter> keys (Updated drifted_updates) = {}
   \<and> keys (Added drifted_updates) \<inter> keys (Removed drifted_updates) = {}
   \<and> keys (Updated drifted_updates) \<inter> keys (Removed drifted_updates) = {}"
proof -
  let ?s = "init miq_url [] [] drifted_reply no_post"
  let ?desired = "[(PStr ''default'', \<lparr>hostname = PStr ''os01.example.com'', port = PInt 8443\<rparr>),
                   (PStr ''hawkular'', \<lparr>hostname = PStr ''hawkular01.example.com'', port = PInt 443\<rparr>)]"
  let ?current = "[(PStr ''default'', \<lparr>hostname = PStr ''old.example.com'', port = PInt 8443\<rparr>),
                   (PStr ''prometheus'', \<lparr>hostname = PStr ''prom.example.com'', port = PInt 9090\<rparr>)]"
  have h1: "fst (required_updates (PInt 266) openshift_endpoints (PInt 2) PNone ?s) = Inr drifted_updates"
    by code_simp
  have h2: "desired_by_role openshift_endpoints = Inr ?desired"
    by code_simp
  have h3: "get_reply ?s (length (gets ?s)) (endpoints_url ?s (PInt 266)) = Inr drifted_json"
    by (simp add: init_def drifted_reply_def)
  have h4: "result_by_role drifted_json = Inr ?current"
    by code_simp
  have h5: "PStr ''zone_id'' \<notin> keys ?desired \<union> keys ?current"
    and h6: "PStr ''provider_region'' \<notin> keys ?desired \<union> keys ?current"
    by (simp_all add: keys_def)
  from required_updates_partition[OF h1 h2 h3 h4 h5 h6] h1
  show ?thesis
    by (simp add: drifted_updates_def keys_def)
qed

section \<open>The claims about the validation poller\<close>

text \<open>
  Claim C3, in two parts. First: when \<^verbatim>\<open>verify_authenticaion_validation\<close> returns
  \<^verbatim>\<open>False\<close> before the iteration cap is spent, that is with fewer than
  \<^verbatim>\<open>ITERATIONS\<close> sleeps and so from line 208, then in the answer it fetched last every
  authtype under test had settled (its timestamp pair differs from the prior snapshot),
  some status is neither \<^verbatim>\<open>'Valid'\<close> nor \<^verbatim>\<open>None\<close>, and the details returned are
  the per-authtype map of that answer. Second: as long as each of the first \<open>k\<close>
  answers, \<open>k\<close> below the cap, leaves some authtype under test unsettled, whatever the
  statuses in it are, the poller goes on and makes a fetch number \<open>k + 1\<close>.
\<close>

theorem explicit_failure_only_when_settled:
  "(fst (verify_authenticaion_validation p old ts s) = Inr (False, v)
      \<longrightarrow> length (sleeps (snd (verify_authenticaion_validation p old ts s)))
            < length (sleeps s) + ITERATIONS
      \<longrightarrow> (\<exists>new d. reply_details s p
                    (length (gets (snd (verify_authenticaion_validation p old ts s))) - 1) = Inr new
             \<and> validations_done old new ts
             \<and> any_failed new ts = Inr True
             \<and> details_of new ts = Inr d \<and> v = Details d))
   \<and> (k < ITERATIONS
      \<longrightarrow> (\<forall>i<k. \<exists>new. reply_details s p (length (gets s) + i) = Inr new
                     \<and> set ts \<subseteq> keys new \<and> \<not> validations_done old new ts)
      \<longrightarrow> length (gets s) + k < length (gets (snd (verify_authenticaion_validation p old ts s))))"
proof (intro conjI impI)
  assume a: "fst (verify_authenticaion_validation p old ts s) = Inr (False, v)"
    and b: "length (sleeps (snd (verify_authenticaion_validation p old ts s)))
           < length (sleeps s) + ITERATIONS"
  obtain s' where r: "poll ITERATIONS p old ts None s = (Inr (False, v), s')"
    using a unfolding verify_authenticaion_validation_def
    by (cases "poll ITERATIONS p old ts None s") simp
  with b have "length (sleeps s') < length (sleeps s) + ITERATIONS"
    by (simp add: verify_authenticaion_validation_def)
  from poll_in_loop_return[OF r this] r
  show "\<exists>new d. reply_details s p
                    (length (gets (snd (verify_authenticaion_validation p old ts s))) - 1) = Inr new
             \<and> validations_done old new ts
             \<and> any_failed new ts = Inr True
             \<and> details_of new ts = Inr d \<and> v = Details d"
    by (auto simp: verify_authenticaion_validation_def)
next
  assume "k < ITERATIONS"
    and "\<forall>i<k. \<exists>new. reply_details s p (length (gets s) + i) = Inr new
                     \<and> set ts \<subseteq> keys new \<and> \<not> validations_done old new ts"
  then show "length (gets s) + k < length (gets (snd (verify_authenticaion_validation p old ts s)))"
    unfolding verify_authenticaion_validation_def by (rule poll_keeps_polling[rotated])
qed

text \<open>
  A run for claim C3: the first answer has \<^verbatim>\<open>bearer\<close> settled and \<^verbatim>\<open>Invalid\<close> while
  \<^verbatim>\<open>hawkular\<close> is unsettled, and the poller fetches again; the second answer has both
  settled, and the poller returns the failure.
\<close>

theorem explicit_failure_only_when_settled_witness:
  "fst (verify_authenticaion_validation (PInt 266)
          [(PStr ''bearer'', unvalidated ''bearer''), (PStr ''hawkular'', unvalidated ''hawkular'')]
          [PStr ''bearer'', PStr ''hawkular''] (init miq_url [] [] staggered_reply no_post))
     = Inr (False, Details [(PStr ''bearer'', (PStr ''Invalid'', PStr ''Login failed'')),
                            (PStr ''hawkular'', (PStr ''Valid'', PStr ''Ok''))])
   \<and> length (gets (snd (verify_authenticaion_validation (PInt 266)
          [(PStr ''bearer'', unvalidated ''bearer''), (PStr ''hawkular'', unvalidated ''hawkular'')]
          [PStr ''bearer'', PStr ''hawkular''] (init miq_url [] [] staggered_reply no_post)))) = 2
   \<and> status_of [(PStr ''bearer'', invalid_auth ''bearer''), (PStr ''hawkular'', unvalidated ''hawkular'')]
          (PStr ''bearer'') = Inr (PStr ''Invalid'')
   \<and> \<not> validations_done
          [(PStr ''bearer'', unvalidated ''bearer''), (PStr ''hawkular'', unvalidated ''hawkular'')]
          [(PStr ''bearer'', invalid_auth ''bearer''), (PStr ''hawkular'', unvalidated ''hawkular'')]
          [PStr ''bearer'', PStr ''hawkular'']
   \<and> validations_done
          [(PStr ''bearer'', unvalidated ''bearer''), (PStr ''hawkular'', unvalidated ''hawkular'')]
          [(PStr ''bearer'', invalid_auth ''bearer''), (PStr ''hawkular'', valid_auth ''hawkular'')]
          [PStr ''bearer'', PStr ''hawkular'']"
proof -
  let ?s = "init miq_url [] [] staggered_reply no_post"
  let ?old = "[(PStr ''bearer'', unvalidated ''bearer''), (PStr ''hawkular'', unvalidated ''hawkular'')]"
  let ?ts = "[PStr ''bearer'', PStr ''hawkular'']"
  let ?new0 = "[(PStr ''bearer'', invalid_auth ''bearer''), (PStr ''hawkular'', unvalidated ''hawkular'')]"
  let ?new1 = "[(PStr ''bearer'', invalid_auth ''bearer''), (PStr ''hawkular'', valid_auth ''hawkular'')]"
  let ?v = "Details [(PStr ''bearer'', (PStr ''Invalid'', PStr ''Login failed'')),
                     (PStr ''hawkular'', (PStr ''Valid'', PStr ''Ok''))]"
  have h1: "fst (verify_authenticaion_validation (PInt 266) ?old ?ts ?s) = Inr (False, ?v)"
    by code_simp
  have h2: "length (sleeps (snd (verify_authenticaion_validation (PInt 266) ?old ?ts ?s)))
              < length (sleeps ?s) + ITERATIONS"
    by code_simp
  have h3: "(1::nat) < ITERATIONS"
    by (simp add: ITERATIONS_def)
  have r0: "reply_details ?s (PInt 266) (length (gets ?s) + 0) = Inr ?new0"
    by code_simp
  have r1: "reply_details ?s (PInt 266) 1 = Inr ?new1"
    by code_simp
  have k0: "set ?ts \<subseteq> keys ?new0"
    by (simp add: keys_def)
  have n0: "\<not> validations_done ?old ?new0 ?ts"
    by code_simp
  have i0: "status_of ?new0 (PStr ''bearer'') = Inr (PStr ''Invalid'')"
    by code_simp
  have h4: "\<forall>i<1. \<exists>new. reply_details ?s (PInt 266) (length (gets ?s) + i) = Inr new
                     \<and> set ?ts \<subseteq> keys new \<and> \<not> validations_done ?old new ?ts"
    using r0 k0 n0 by auto
  note t = explicit_failure_only_when_settled[of "PInt 266" ?old ?ts ?s ?v 1]
  from t h1 h2 obtain new where
    e: "reply_details ?s (PInt 266)
          (length (gets (snd (verify_authenticaion_validation (PInt 266) ?old ?ts ?s))) - 1) = Inr new"
    and s: "validations_done ?old new ?ts"
    by blast
  from t h3 h4 have g: "length (gets ?s) + 1
                          < length (gets (snd (verify_authenticaion_validation (PInt 266) ?old ?ts ?s)))"
    by blast
  have g2: "length (gets (snd (verify_authenticaion_validation (PInt 266) ?old ?ts ?s))) = 2"
    by code_simp
  from e r1 have "new = ?new1" unfolding g2 by simp
  with s h1 g2 i0 n0 show ?thesis by simp
qed

text \<open>
  Claim C4. The prior snapshot of \<^verbatim>\<open>bearer\<close> has no timestamps, the first answer
  repeats that, the second answer has a new \<^verbatim>\<open>last_valid_on\<close> and status
  \<^verbatim>\<open>'Valid'\<close>: the poller fetches exactly twice, sleeps once in between and returns
  \<^verbatim>\<open>(True, 'All Valid')\<close>.
\<close>

theorem poll_one_retry:
  assumes "get_or (get_or old (PStr ''bearer'') []) ''last_valid_on'' PNone = PNone"
    and "get_or (get_or old (PStr ''bearer'') []) ''last_invalid_on'' PNone = PNone"
    and "reply_details s p (length (gets s)) = Inr new0"
    and "map_of new0 (PStr ''bearer'') = Some r0"
    and "get_or r0 ''last_valid_on'' PNone = PNone"
    and "get_or r0 ''last_invalid_on'' PNone = PNone"
    and "reply_details s p (Suc (length (gets s))) = Inr new1"
    and "map_of new1 (PStr ''bearer'') = Some r1"
    and "get_or r1 ''last_valid_on'' PNone \<noteq> PNone"
    and "item r1 ''status'' = Inr (PStr ''Valid'')"
  shows "verify_authenticaion_validation p old [PStr ''bearer''] s =
           (Inr (True, AllValid),
            s\<lparr>gets := gets s @ [auth_url s p, auth_url s p],
              sleeps := sleeps s @ [WAIT_TIME]\<rparr>)"
proof -
  obtain m where I: "ITERATIONS = Suc (Suc m)"
    by (simp add: ITERATIONS_def numeral_eq_Suc)
  have k0: "set [PStr ''bearer''] \<subseteq> keys new0" and k1: "set [PStr ''bearer''] \<subseteq> keys new1"
    using assms(4,8) by (auto dest: map_of_Some_keys)
  from k0 obtain d0 where d0: "details_of new0 [PStr ''bearer''] = Inr d0"
    using details_of_Inr_iff by blast
  from k1 obtain d1 where d1: "details_of new1 [PStr ''bearer''] = Inr d1"
    using details_of_Inr_iff by blast
  have n0: "\<not> validations_done old new0 [PStr ''bearer'']"
    using assms(1,2,4,5,6) by (simp add: validations_done_def validated_def get_or_def)
  have v1: "validations_done old new1 [PStr ''bearer'']"
    using assms(1,2,8,9) by (simp add: validations_done_def validated_def get_or_def)
  have af: "any_failed new1 [PStr ''bearer''] = Inr False"
    and av: "all_valid new1 [PStr ''bearer''] = Inr True"
    using assms(8,10) by (simp_all add: status_of_def)
  let ?s1 = "sleep WAIT_TIME (fetched s p)"
  have step: "poll (Suc (Suc m)) p old [PStr ''bearer''] None s
                = poll (Suc m) p old [PStr ''bearer''] (Some d0) ?s1"
    using assms(3) d0 n0 by (rule poll_Suc_unsettled)
  have "poll (Suc m) p old [PStr ''bearer''] (Some d0) ?s1 = (Inr (True, AllValid), fetched ?s1 p)"
    using assms(7) d1 v1 af av by (simp add: auths_validation_details_eq)
  moreover have "fetched ?s1 p = s\<lparr>gets := gets s @ [auth_url s p, auth_url s p],
              sleeps := sleeps s @ [WAIT_TIME]\<rparr>"
    by (simp add: fetched_def sleep_def)
  ultimately show ?thesis
    unfolding verify_authenticaion_validation_def I step by simp
qed

text \<open>Claim C4 on a concrete server.\<close>

theorem poll_one_retry_witness:
  "fst (verify_authenticaion_validation (PInt 266) [(PStr ''bearer'', unvalidated ''bearer'')]
         [PStr ''bearer''] (init miq_url [] [] retry_reply no_post)) = Inr (True, AllValid)
   \<and> length (gets (snd (verify_authenticaion_validation (PInt 266)
         [(PStr ''bearer'', unvalidated ''bearer'')]
         [PStr ''bearer''] (init miq_url [] [] retry_reply no_post)))) = 2
   \<and> sleeps (snd (verify_authenticaion_validation (PInt 266)
         [(PStr ''bearer'', unvalidated ''bearer'')]
         [PStr ''bearer''] (init miq_url [] [] retry_reply no_post))) = [5]"
proof -
  let ?s = "init miq_url [] [] retry_reply no_post"
  let ?old = "[(PStr ''bearer'', unvalidated ''bearer'')]"
  have h1: "get_or (get_or ?old (PStr ''bearer'') []) ''last_valid_on'' PNone = PNone"
    and h2: "get_or (get_or ?old (PStr ''bearer'') []) ''last_invalid_on'' PNone = PNone"
    by code_simp+
  have h3: "reply_details ?s (PInt 266) (length (gets ?s)) = Inr [(PStr ''bearer'', unvalidated ''bearer'')]"
    by code_simp
  have h4: "map_of [(PStr ''bearer'', unvalidated ''bearer'')] (PStr ''bearer'') = Some (unvalidated ''bearer'')"
    by simp
  have h5: "get_or (unvalidated ''bearer'') ''last_valid_on'' PNone = PNone"
    and h6: "get_or (unvalidated ''bearer'') ''last_invalid_on'' PNone = PNone"
    by code_simp+
  have h7: "reply_details ?s (PInt 266) (Suc (length (gets ?s))) = Inr [(PStr ''bearer'', valid_auth ''bearer'')]"
    by code_simp
  have h8: "map_of [(PStr ''bearer'', valid_auth ''bearer'')] (PStr ''bearer'') = Some (valid_auth ''bearer'')"
    by simp
  have h9: "get_or (valid_auth ''bearer'') ''last_valid_on'' PNone \<noteq> PNone"
    by code_simp
  have h10: "item (valid_auth ''bearer'') ''status'' = Inr (PStr ''Valid'')"
    by code_simp
  from poll_one_retry[OF h1 h2 h3 h4 h5 h6 h7 h8 h9 h10]
  show ?thesis by (simp add: WAIT_TIME_def init_def)
qed



text \<open>
  Claim C10. If an answer that the poller fetches lacks the record of an authtype under
  test, the poller does not return a result: it ends with the \<^verbatim>\<open>KeyError\<close> of
  \<^verbatim>\<open>new_validation_details[t]\<close> for an authtype \<open>t'\<close> that the answer lacks.
\<close>

theorem missing_authtype_raises:
  assumes "length (gets s) + i < length (gets (snd (verify_authenticaion_validation p old ts s)))"
    and "reply_details s p (length (gets s) + i) = Inr new"
    and "t \<in> set ts" and "t \<notin> keys new"
  shows "\<exists>t' \<in> set ts. t' \<notin> keys new
           \<and> fst (verify_authenticaion_validation p old ts s) = Inl (Uncaught (KeyError t'))"
proof -
  obtain r s' where r: "poll ITERATIONS p old ts None s = (r, s')"
    by (cases "poll ITERATIONS p old ts None s")
  with assms(1) have "length (gets s) + i < length (gets s')"
    by (simp add: verify_authenticaion_validation_def)
  from poll_missing[OF r this assms(2,3,4)] r show ?thesis
    by (simp add: verify_authenticaion_validation_def)
qed

text \<open>
  Claim C10 on a server that answers with the \<^verbatim>\<open>bearer\<close> record only, while
  \<^verbatim>\<open>bearer\<close> and \<^verbatim>\<open>hawkular\<close> are under test.
\<close>

theorem missing_authtype_raises_witness:
  "fst (verify_authenticaion_validation (PInt 266) []
          [PStr ''bearer'', PStr ''hawkular''] (init miq_url [] [] partial_reply no_post))
     = Inl (Uncaught (KeyError (PStr ''hawkular'')))"
proof -
  let ?s = "init miq_url [] [] partial_reply no_post"
  let ?ts = "[PStr ''bearer'', PStr ''hawkular'']"
  let ?new = "[(PStr ''bearer'', valid_auth ''bearer'')]"
  have h1: "length (gets ?s) + 0 < length (gets (snd (verify_authenticaion_validation (PInt 266) [] ?ts ?s)))"
    by code_simp
  have h2: "reply_details ?s (PInt 266) (length (gets ?s) + 0) = Inr ?new"
    by code_simp
  have h3: "PStr ''hawkular'' \<in> set ?ts" by simp
  have h4: "PStr ''hawkular'' \<notin> keys ?new" by (simp add: keys_def)
  have k: "\<And>t'. t' \<in> set ?ts \<Longrightarrow> t' \<notin> keys ?new \<Longrightarrow> t' = PStr ''hawkular''"
    by (auto simp: keys_def)
  from missing_authtype_raises[OF h1 h2 h3 h4] k
  show ?thesis by metis
qed

section \<open>The claims about \<^verbatim>\<open>add_or_update_provider\<close> and \<^verbatim>\<open>delete_provider\<close>\<close>




text \<open>
  Claim C6. On a fresh object, if \<^verbatim>\<open>find_provider_by_name\<close> finds no provider of
  that name, \<^verbatim>\<open>delete_provider\<close> returns normally
  \<^verbatim>\<open>{task_id: None, changed: False, msg: "Provider <name> doesn't exist"}\<close> and leaves
  the state as it is: no POST is performed.
\<close>

theorem delete_absent_provider:
  assumes "find_provider_by_name provider_name s = PNone"
    and "\<not> changed s"
  shows "delete_provider provider_name s =
           (Inr \<lparr>d_task_id = PNone, d_changed = False, d_api_error = None,
                 d_msg = PStr (''Provider '' @ provider_name @ '' doesn't exist'')\<rparr>, s)
       \<and> posts (snd (delete_provider provider_name s)) = posts s"
  using assms by (simp add: delete_provider_def)

text \<open>Claim C6 on a server that does not know \<^verbatim>\<open>openshift02\<close>.\<close>

theorem delete_absent_provider_witness:
  "fst (delete_provider ''openshift02'' (miq_server (synced_reply None)))
     = Inr \<lparr>d_task_id = PNone, d_changed = False, d_api_error = None,
            d_msg = PStr ''Provider openshift02 doesn't exist''\<rparr>
   \<and> posts (snd (delete_provider ''openshift02'' (miq_server (synced_reply None)))) = []"
proof -
  let ?s = "miq_server (synced_reply None)"
  have h1: "find_provider_by_name ''openshift02'' ?s = PNone"
    by code_simp
  have h2: "\<not> changed ?s"
    by (simp add: miq_server_def init_def)
  from delete_absent_provider[OF h1 h2]
  show ?thesis by (simp add: miq_server_def init_def)
qed






section \<open>The claim about custom attributes\<close>

text \<open>
  Claim C8. A desired custom attribute whose section differs from the section of every
  existing attribute of the same name is classified as added and not as updated.
\<close>

theorem same_name_new_section_is_added:
  assumes "d \<in> set desired"
    and "\<forall>c \<in> set current. ca_name c = ca_name d \<longrightarrow> ca_section c \<noteq> ca_section d"
  shows "d \<in> set (ca_added desired current) \<and> d \<notin> set (ca_updated desired current)"
  using assms by (auto simp: ca_added_def ca_updated_def ca_key_def list_ex_iff)

text \<open>
  Claim C8 on the example of the tests: the existing attribute \<^verbatim>\<open>ca1\<close> of section
  \<^verbatim>\<open>metadata\<close> and the desired attribute \<^verbatim>\<open>ca1\<close> of section \<^verbatim>\<open>section\<close>.
\<close>

theorem same_name_new_section_is_added_witness:
  "ca_added [\<lparr>ca_name = ''ca1'', ca_section = ''section'', ca_value = ''new value''\<rparr>]
            [\<lparr>ca_name = ''ca1'', ca_section = ''metadata'', ca_value = ''value 1''\<rparr>]
     = [\<lparr>ca_name = ''ca1'', ca_section = ''section'', ca_value = ''new value''\<rparr>]
   \<and> ca_updated [\<lparr>ca_name = ''ca1'', ca_section = ''section'', ca_value = ''new value''\<rparr>]
            [\<lparr>ca_name = ''ca1'', ca_section = ''metadata'', ca_value = ''value 1''\<rparr>]
     = []"
proof -
  let ?d = "\<lparr>ca_name = ''ca1'', ca_section = ''section'', ca_value = ''new value''\<rparr>"
  let ?c = "\<lparr>ca_name = ''ca1'', ca_section = ''metadata'', ca_value = ''value 1''\<rparr>"
  have h1: "?d \<in> set [?d]" by simp
  have h2: "\<forall>c \<in> set [?c]. ca_name c = ca_name ?d \<longrightarrow> ca_section c \<noteq> ca_section ?d" by simp
  from same_name_new_section_is_added[OF h1 h2]
  show ?thesis by (simp add: ca_added_def ca_updated_def ca_key_def)
qed


end
